theory Spec2Isabelle
  imports Complex_Main "HOL-Library.Multiset" "HOL-Library.Sublist"
begin

section \<open>Python values shared by the components\<close>

text \<open>
  Exceptions that leave a function are values of \<open>py_error\<close>; a function that can raise
  returns \<open>py_error + 'a\<close>. Byte strings and text are lists of characters.
\<close>

datatype py_error = IndexError | KeyError | ValueError | ZeroDivisionError | SqliteError | OSError

type_synonym bytes = "char list"

definition startswith :: "'a list \<Rightarrow> 'a list \<Rightarrow> bool" where
  "startswith s p = (take (length p) s = p)"

text \<open>\<open>bytes_in sub s\<close> is Python's \<open>sub in s\<close> on byte strings and on text.\<close>

fun bytes_in :: "'a list \<Rightarrow> 'a list \<Rightarrow> bool" where
  "bytes_in sub [] = (sub = [])"
| "bytes_in sub (c # cs) = (startswith (c # cs) sub \<or> bytes_in sub cs)"


section \<open>The MBTiles store (GeoSatellite/src/storage.py)\<close>

text \<open>
  A table is the list of its rows in insertion order, and the unique indexes of a table are
  the list of their key functions. \<open>INSERT OR IGNORE\<close> skips a row that collides with a
  stored row on some unique index; \<open>INSERT OR REPLACE\<close> deletes the stored rows the new
  row collides with and then inserts it. On a table with no unique index nothing collides.
\<close>

definition conflicts :: "('r \<Rightarrow> 'k) list \<Rightarrow> 'r \<Rightarrow> 'r \<Rightarrow> bool" where
  "conflicts idx r q = list_ex (\<lambda>key. key r = key q) idx"

definition insert_or_ignore :: "('r \<Rightarrow> 'k) list \<Rightarrow> 'r list \<Rightarrow> 'r \<Rightarrow> 'r list" where
  "insert_or_ignore idx tbl r = (if list_ex (conflicts idx r) tbl then tbl else tbl @ [r])"

definition insert_or_replace :: "('r \<Rightarrow> 'k) list \<Rightarrow> 'r list \<Rightarrow> 'r \<Rightarrow> 'r list" where
  "insert_or_replace idx tbl r = filter (\<lambda>q. \<not> conflicts idx r q) tbl @ [r]"

text \<open>
  Rows of \<open>tiles (zoom_level, tile_column, tile_row, tile_data)\<close> and of
  \<open>metadata (name, value)\<close>. The coordinates are Python integers.
\<close>

type_synonym tile_row = "int \<times> int \<times> int \<times> bytes"
type_synonym meta_row = "string \<times> string"

record storage =
  metadata :: "meta_row list"
  tiles :: "tile_row list"

fun tile_key :: "tile_row \<Rightarrow> int \<times> int \<times> int" where
  "tile_key (zoom_level, tile_column, tile_row, tile_data) = (zoom_level, tile_column, tile_row)"

fun tile_data :: "tile_row \<Rightarrow> bytes" where
  "tile_data (zoom_level, tile_column, tile_row, d) = d"

text \<open>
  \<open>_init_schema\<close>: \<open>tiles\<close> gets the unique index \<open>tile_index\<close> over
  \<open>(zoom_level, tile_column, tile_row)\<close>; \<open>metadata (name text, value text)\<close> is created
  with no primary key and no unique index.
\<close>

definition tile_index :: "(tile_row \<Rightarrow> int \<times> int \<times> int) list" where
  "tile_index = [tile_key]"

definition metadata_index :: "(meta_row \<Rightarrow> string) list" where
  "metadata_index = []"

text \<open>
  \<open>save_metadata\<close> runs \<open>executemany\<close> of \<open>INSERT OR REPLACE INTO metadata\<close> over the six
  pairs, in order. The flag \<open>sql_ok\<close> says whether SQLite executes the statement; when it
  does not, \<open>sqlite3.Error\<close> leaves \<open>save_metadata\<close>, which has no handler.
\<close>

definition save_metadata ::
  "bool \<Rightarrow> storage \<Rightarrow> string \<Rightarrow> string \<Rightarrow> string \<Rightarrow> string \<Rightarrow> py_error + storage" where
  "save_metadata sql_ok st name description bounds_str fmt =
     (let meta = [(''name'', name), (''type'', ''overlay''), (''version'', ''1.2''),
                  (''description'', description), (''format'', fmt), (''bounds'', bounds_str)]
      in if sql_ok
         then Inr (st\<lparr>metadata := foldl (insert_or_replace metadata_index) (metadata st) meta\<rparr>)
         else Inl SqliteError)"

text \<open>
  \<open>save_tile\<close> runs \<open>INSERT OR IGNORE INTO tiles\<close>; its handler for \<open>sqlite3.Error\<close>
  prints and returns, so the store is unchanged on that path.
\<close>

definition save_tile :: "bool \<Rightarrow> storage \<Rightarrow> int \<Rightarrow> int \<Rightarrow> int \<Rightarrow> bytes \<Rightarrow> storage" where
  "save_tile sql_ok st zl col y_tms d =
     (if sql_ok then st\<lparr>tiles := insert_or_ignore tile_index (tiles st) (zl, col, y_tms, d)\<rparr>
      else st)"

text \<open>What a reader of the finished store sees.\<close>

definition tile_payloads :: "storage \<Rightarrow> int \<Rightarrow> int \<Rightarrow> int \<Rightarrow> bytes list" where
  "tile_payloads st zl col row =
     map tile_data (filter (\<lambda>r. tile_key r = (zl, col, row)) (tiles st))"

definition metadata_values :: "storage \<Rightarrow> string \<Rightarrow> string list" where
  "metadata_values st name = map snd (filter (\<lambda>r. fst r = name) (metadata st))"

definition tile_present :: "storage \<Rightarrow> int \<Rightarrow> int \<Rightarrow> int \<Rightarrow> bool" where
  "tile_present st zl col row = list_ex (\<lambda>r. tile_key r = (zl, col, row)) (tiles st)"

section \<open>Raster tile download (GeoSatellite/src/downloader.py, GeoTiles/src/downloader.py)\<close>

text \<open>
  A work item is a \<open>mercantile.Tile(x, y, z)\<close>. \<open>flip_y\<close> is from \<open>utils.py\<close>; zoom levels
  of the tile pyramid are not negative.
\<close>

datatype tile = Tile (tile_x: int) (tile_y: int) (tile_z: int)


text \<open>
  \<open>requests.get\<close> either raises (\<open>Inl\<close> carries \<open>str(e)\<close>) or returns a response. Building
  the URL with \<open>str.format\<close> is a library call that can raise on a template with other
  fields; it is the parameter \<open>fmt_url\<close>. Both fetch functions build the URL before their
  \<open>try\<close> block, so an exception of that step leaves the function.
\<close>

datatype response = Response (status_code: int) (content: bytes)

type_synonym fetched = "tile \<times> bytes option \<times> string option"

definition fetch_tile_content ::
  "(string \<Rightarrow> tile \<Rightarrow> py_error + 'u) \<Rightarrow> ('u \<Rightarrow> 'h \<Rightarrow> 't \<Rightarrow> string + response) \<Rightarrow>
   tile \<Rightarrow> string \<Rightarrow> 'h \<Rightarrow> 't \<Rightarrow> py_error + fetched" where
  "fetch_tile_content fmt_url get tile url_template headers timeout =
     (case fmt_url url_template tile of
        Inl e \<Rightarrow> Inl e
      | Inr url \<Rightarrow>
         (case get url headers timeout of
            Inl msg \<Rightarrow> Inr (tile, None, Some msg)
          | Inr resp \<Rightarrow>
             if status_code resp = 200 then
               if bytes_in ''ServiceException'' (content resp)
                  \<or> bytes_in ''<html'' (take 50 (content resp))
               then Inr (tile, None, None)
               else Inr (tile, Some (content resp), None)
             else Inr (tile, None, None)))"

text \<open>
  GeoTiles: the server is drawn with \<open>random.choice\<close>, which raises \<open>IndexError\<close> on an
  empty list; \<open>draw\<close> is the random number of this call. The body must start with the PNG
  signature \<open>b'\x89PNG'\<close>.
\<close>

definition random_choice :: "nat \<Rightarrow> 'a list \<Rightarrow> py_error + 'a" where
  "random_choice draw xs = (if xs = [] then Inl IndexError else Inr (xs ! (draw mod length xs)))"

definition png_magic :: bytes where
  "png_magic = [CHR 0x89, CHR ''P'', CHR ''N'', CHR ''G'']"

definition fetch_tile_content_osm ::
  "(string \<Rightarrow> tile \<Rightarrow> py_error + 'u) \<Rightarrow> ('u \<Rightarrow> 'h \<Rightarrow> 't \<Rightarrow> string + response) \<Rightarrow> nat \<Rightarrow>
   tile \<Rightarrow> string list \<Rightarrow> 'h \<Rightarrow> 't \<Rightarrow> py_error + fetched" where
  "fetch_tile_content_osm fmt_url get draw tile servers headers timeout =
     (case random_choice draw servers of
        Inl e \<Rightarrow> Inl e
      | Inr template \<Rightarrow>
         (case fmt_url template tile of
            Inl e \<Rightarrow> Inl e
          | Inr url \<Rightarrow>
             (case get url headers timeout of
                Inl msg \<Rightarrow> Inr (tile, None, Some msg)
              | Inr resp \<Rightarrow>
                 if status_code resp = 200 then
                   if startswith (content resp) png_magic
                   then Inr (tile, Some (content resp), None)
                   else Inr (tile, None, None)
                 else Inr (tile, None, None))))"










section \<open>Vector download (GeoKMZ/osm_downloader.py)\<close>

subsection \<open>Partition of the region\<close>

text \<open>
  Coordinates are Python floats; they are modelled as real numbers, so rounding, overflow
  and NaN are outside the model. \<open>bbox_area\<close> is the area estimate both functions compute
  from the bounds \<open>(w, s, e, n)\<close>; \<open>math.radians(x)\<close> is \<open>x * pi / 180\<close>.
\<close>

definition bbox_area :: "real \<Rightarrow> real \<Rightarrow> real \<Rightarrow> real \<Rightarrow> real" where
  "bbox_area w s e n =
     (let lat_mid = (s + n) / 2;
          m_per_deg_lat = 111320;
          m_per_deg_lon = 111320 * cos (lat_mid * pi / 180)
      in (e - w) * m_per_deg_lon * (n - s) * m_per_deg_lat)"

text \<open>
  \<open>n_tiles = max(2, int(math.ceil(math.sqrt(area / max_area))))\<close>. The division raises
  \<open>ZeroDivisionError\<close> for a zero limit and \<open>math.sqrt\<close> raises \<open>ValueError\<close> on a negative
  argument; neither function catches them.
\<close>

definition grid_size :: "real \<Rightarrow> real \<Rightarrow> py_error + nat" where
  "grid_size area max_area =
     (if max_area = 0 then Inl ZeroDivisionError
      else if area / max_area < 0 then Inl ValueError
      else Inr (max 2 (nat \<lceil>sqrt (area / max_area)\<rceil>)))"

definition grid_cell ::
  "real \<Rightarrow> real \<Rightarrow> real \<Rightarrow> real \<Rightarrow> nat \<Rightarrow> nat \<Rightarrow> real \<times> real \<times> real \<times> real" where
  "grid_cell w s lon_step lat_step i j =
     (w + real i * lon_step, s + real j * lat_step,
      w + real (i + 1) * lon_step, s + real (j + 1) * lat_step)"

text \<open>
  \<open>fetch_layer\<close>, lines 617 to 655. The region is a shapely geometry; \<open>bounds\<close>, \<open>box\<close>,
  \<open>intersection\<close> and \<open>is_empty\<close> are the library's operations on it. The two nested
  \<open>for\<close> loops over \<open>range(n_tiles)\<close> append to \<open>tiles\<close>.
\<close>

definition fetch_layer_tiles ::
  "('g \<Rightarrow> real \<times> real \<times> real \<times> real) \<Rightarrow> (real \<times> real \<times> real \<times> real \<Rightarrow> 'g) \<Rightarrow>
   ('g \<Rightarrow> 'g \<Rightarrow> 'g) \<Rightarrow> ('g \<Rightarrow> bool) \<Rightarrow> 'g \<Rightarrow> real \<Rightarrow> py_error + 'g list" where
  "fetch_layer_tiles bounds box intersection is_empty polygon_geom max_area =
     (case bounds polygon_geom of (w, s, e, n) \<Rightarrow>
        let area = bbox_area w s e n in
        if area \<le> max_area then Inr [polygon_geom]
        else
          (case grid_size area max_area of
             Inl err \<Rightarrow> Inl err
           | Inr n_tiles \<Rightarrow>
               let lon_step = (e - w) / real n_tiles;
                   lat_step = (n - s) / real n_tiles
               in Inr (foldl (\<lambda>acc i.
                         foldl (\<lambda>acc j.
                            let tile_box = box (grid_cell w s lon_step lat_step i j);
                                tile_poly = intersection polygon_geom tile_box
                            in if \<not> is_empty tile_poly then acc @ [tile_poly] else acc)
                          acc [0..<n_tiles])
                       [] [0..<n_tiles])))"

text \<open>
  \<open>fetch_save_voivodeships_geojson\<close>, lines 127 to 153: the region is the bounding box
  itself and every cell of the grid is kept.
\<close>

definition voivodeship_tiles ::
  "real \<times> real \<times> real \<times> real \<Rightarrow> real \<Rightarrow> py_error + (real \<times> real \<times> real \<times> real) list" where
  "voivodeship_tiles poland_bbox max_area =
     (case poland_bbox of (w, s, e, n) \<Rightarrow>
        let area = bbox_area w s e n in
        if area \<le> max_area then Inr [poland_bbox]
        else
          (case grid_size area max_area of
             Inl err \<Rightarrow> Inl err
           | Inr n_tiles \<Rightarrow>
               let lon_step = (e - w) / real n_tiles;
                   lat_step = (n - s) / real n_tiles
               in Inr (foldl (\<lambda>acc i.
                         foldl (\<lambda>acc j. acc @ [grid_cell w s lon_step lat_step i j])
                          acc [0..<n_tiles])
                       [] [0..<n_tiles])))"

subsection \<open>Endpoint rotation and the retry loop\<close>

text \<open>
  \<open>fetch_layer\<close> picks \<open>servers[(i + attempt) % len(servers)]\<close>, with the tile number and
  the attempt both counted from 1; the boundary download makes one request per tile to
  \<open>servers[i % n_servers]\<close>. Both functions leave before the loop when the list is empty.
\<close>

definition current_server :: "string list \<Rightarrow> nat \<Rightarrow> nat \<Rightarrow> string" where
  "current_server servers i attempt = servers ! ((i + attempt) mod length servers)"

definition voivodeship_server :: "string list \<Rightarrow> nat \<Rightarrow> string" where
  "voivodeship_server servers i = servers ! (i mod length servers)"

text \<open>
  A GeoDataFrame is its column names and its rows; a row gives a value to some of the
  columns, and a column it has no value for reads as missing (\<open>None\<close>, pandas' NaN).
  \<open>gdf.empty\<close> holds when an axis has length zero.
\<close>

datatype 'v gdf = GeoDataFrame (gdf_columns: "string list") (gdf_rows: "(string \<times> 'v) list list")

definition gdf_empty :: "'v gdf \<Rightarrow> bool" where
  "gdf_empty f = (gdf_rows f = [] \<or> gdf_columns f = [])"

text \<open>
  The settings read with \<open>download_settings.get\<close>, after their defaults
  (3, 30, 45 and 10) have been applied.
\<close>

record download_settings =
  max_attempts :: int
  sleep_on_timeout :: int
  sleep_on_rate_limit :: int
  sleep_on_error :: int

definition lower_char :: "char \<Rightarrow> char" where
  "lower_char c =
     (let k = (of_char c :: nat) in if 65 \<le> k \<and> k \<le> 90 then char_of (k + 32) else c)"

definition lower :: "string \<Rightarrow> string" where
  "lower msg = map lower_char msg"

definition wait_time_for :: "download_settings \<Rightarrow> string \<Rightarrow> int" where
  "wait_time_for ds msg =
     (let error_msg = lower msg in
      if bytes_in ''504'' error_msg \<or> bytes_in ''timeout'' error_msg
      then sleep_on_timeout ds
      else if bytes_in ''rate limit'' error_msg \<or> bytes_in ''429'' error_msg
      then sleep_on_rate_limit ds
      else sleep_on_error ds)"

text \<open>
  What the loop does is recorded as a trace: \<open>Attempt i attempt server\<close> is one call of
  \<open>ox.features_from_polygon\<close> for tile \<open>i\<close> against \<open>server\<close>, \<open>Sleep t\<close> the wait after a
  failed attempt and \<open>Pause\<close> the random sleep between two tiles. The state of the loop is
  the list \<open>frames\<close> and the trace. The call either raises (\<open>Inl\<close> carries \<open>str(e)\<close>) or
  returns a frame; \<open>stop i attempt\<close> is the value of the stop flag when it is read
  before that attempt.
\<close>

datatype event = Attempt nat nat string | Sleep int | Pause

record 'v dl_state =
  frames :: "'v gdf list"
  trace :: "event list"

text \<open>
  \<open>fetch_layer\<close>, lines 659 to 701: \<open>attempts_loop\<close> is the inner loop over
  \<open>range(1, max_attempts + 1)\<close> for one tile, \<open>tiles_loop\<close> the outer loop over
  \<open>enumerate(tiles, 1)\<close>, and \<open>download_tiles\<close> starts it with no frame.
\<close>

fun attempts_loop ::
  "download_settings \<Rightarrow> string list \<Rightarrow> (nat \<Rightarrow> nat \<Rightarrow> bool) \<Rightarrow>
   (string \<Rightarrow> 'g \<Rightarrow> nat \<Rightarrow> nat \<Rightarrow> string + 'v gdf) \<Rightarrow> nat \<Rightarrow> 'g \<Rightarrow> nat list \<Rightarrow>
   'v dl_state \<Rightarrow> 'v dl_state" where
  "attempts_loop ds servers stop ox i tile_geom [] st = st"
| "attempts_loop ds servers stop ox i tile_geom (attempt # rest) st =
     (if stop i attempt then st
      else
        let server = current_server servers i attempt;
            st1 = st\<lparr>trace := trace st @ [Attempt i attempt server]\<rparr>
        in case ox server tile_geom i attempt of
             Inr gdf \<Rightarrow>
               if \<not> gdf_empty gdf then st1\<lparr>frames := frames st1 @ [gdf]\<rparr> else st1
           | Inl msg \<Rightarrow>
               let wait_time = wait_time_for ds msg;
                   st2 = (if int attempt < max_attempts ds
                          then st1\<lparr>trace := trace st1 @ [Sleep wait_time]\<rparr> else st1)
               in attempts_loop ds servers stop ox i tile_geom rest st2)"

fun tiles_loop ::
  "download_settings \<Rightarrow> string list \<Rightarrow> (nat \<Rightarrow> nat \<Rightarrow> bool) \<Rightarrow>
   (string \<Rightarrow> 'g \<Rightarrow> nat \<Rightarrow> nat \<Rightarrow> string + 'v gdf) \<Rightarrow> nat \<Rightarrow> (nat \<times> 'g) list \<Rightarrow>
   'v dl_state \<Rightarrow> 'v dl_state" where
  "tiles_loop ds servers stop ox len_tiles [] st = st"
| "tiles_loop ds servers stop ox len_tiles ((i, tile_geom) # rest) st =
     (let st1 = attempts_loop ds servers stop ox i tile_geom
                  [1..<nat (max_attempts ds + 1)] st;
          st2 = (if i < len_tiles then st1\<lparr>trace := trace st1 @ [Pause]\<rparr> else st1)
      in tiles_loop ds servers stop ox len_tiles rest st2)"

definition download_tiles ::
  "download_settings \<Rightarrow> string list \<Rightarrow> (nat \<Rightarrow> nat \<Rightarrow> bool) \<Rightarrow>
   (string \<Rightarrow> 'g \<Rightarrow> nat \<Rightarrow> nat \<Rightarrow> string + 'v gdf) \<Rightarrow> 'g list \<Rightarrow> 'v dl_state" where
  "download_tiles ds servers stop ox tls =
     tiles_loop ds servers stop ox (length tls) (zip [1..<Suc (length tls)] tls)
       \<lparr>frames = [], trace = []\<rparr>"

text \<open>The attempts of tile \<open>i\<close> in a trace, as pairs of attempt number and server.\<close>

fun attempts_of :: "nat \<Rightarrow> event list \<Rightarrow> (nat \<times> string) list" where
  "attempts_of i [] = []"
| "attempts_of i (Attempt j a server # es) =
     (if j = i then (a, server) # attempts_of i es else attempts_of i es)"
| "attempts_of i (Sleep t # es) = attempts_of i es"
| "attempts_of i (Pause # es) = attempts_of i es"

subsection \<open>Merging the partial results\<close>

text \<open>
  \<open>pd.concat(frames, ignore_index=True)\<close> takes the union of the columns, in order of first
  appearance, and chains the rows. \<open>drop_duplicates(subset=['osmid'])\<close> walks the rows in
  order and keeps a row when the value of its \<open>osmid\<close> cell has not been seen before;
  missing values compare equal to each other.
\<close>

definition concat_frames :: "'v gdf list \<Rightarrow> 'v gdf" where
  "concat_frames fs =
     GeoDataFrame (rev (remdups (rev (concat (map gdf_columns fs))))) (concat (map gdf_rows fs))"

fun drop_seen :: "'k list \<Rightarrow> ('r \<Rightarrow> 'k) \<Rightarrow> 'r list \<Rightarrow> 'r list" where
  "drop_seen seen key [] = []"
| "drop_seen seen key (r # rs) =
     (if key r \<in> set seen then drop_seen seen key rs
      else r # drop_seen (key r # seen) key rs)"

definition osmid :: "(string \<times> 'v) list \<Rightarrow> 'v option" where
  "osmid r = map_of r ''osmid''"

definition drop_duplicates_osmid :: "'v gdf \<Rightarrow> 'v gdf" where
  "drop_duplicates_osmid f = GeoDataFrame (gdf_columns f) (drop_seen [] osmid (gdf_rows f))"

definition merge_frames :: "'v gdf list \<Rightarrow> 'v gdf" where
  "merge_frames fs =
     (let final_gdf = concat_frames fs in
      if ''osmid'' \<in> set (gdf_columns final_gdf)
      then drop_duplicates_osmid final_gdf else final_gdf)"

text \<open>
  \<open>fetch_layer\<close> as a whole. Its result is the trace, the merged frame when one was
  built, and the value the function returns. It returns \<open>False\<close> with no server and with
  no frame. Otherwise it merges the frames, writes the merged frame with \<open>to_file\<close> (no
  handler: when the write fails the exception leaves the function) and converts the file
  with \<open>geojson_to_kmz\<close>, which catches its own exceptions and reports success or
  failure; \<open>fetch_layer\<close> returns \<open>False\<close> when the conversion fails and \<open>True\<close> when it
  succeeds. The two are parameters: whether the write of a frame succeeds, and whether
  its conversion succeeds. Removing the temporary file and logging are not modelled.
\<close>

definition fetch_layer ::
  "('g \<Rightarrow> real \<times> real \<times> real \<times> real) \<Rightarrow> (real \<times> real \<times> real \<times> real \<Rightarrow> 'g) \<Rightarrow>
   ('g \<Rightarrow> 'g \<Rightarrow> 'g) \<Rightarrow> ('g \<Rightarrow> bool) \<Rightarrow> ('v gdf \<Rightarrow> bool) \<Rightarrow> ('v gdf \<Rightarrow> bool) \<Rightarrow>
   download_settings \<Rightarrow> string list \<Rightarrow> (nat \<Rightarrow> nat \<Rightarrow> bool) \<Rightarrow>
   (string \<Rightarrow> 'g \<Rightarrow> nat \<Rightarrow> nat \<Rightarrow> string + 'v gdf) \<Rightarrow> 'g \<Rightarrow> real \<Rightarrow>
   py_error + (event list \<times> 'v gdf option \<times> bool)" where
  "fetch_layer bounds box intersection is_empty to_file geojson_to_kmz ds servers stop ox
       polygon_geom max_area =
     (if servers = [] then Inr ([], None, False)
      else
        (case fetch_layer_tiles bounds box intersection is_empty polygon_geom max_area of
           Inl err \<Rightarrow> Inl err
         | Inr tls \<Rightarrow>
             let st = download_tiles ds servers stop ox tls in
             if frames st = [] then Inr (trace st, None, False)
             else
               let final_gdf = merge_frames (frames st) in
               if \<not> to_file final_gdf then Inl OSError
               else if geojson_to_kmz final_gdf then Inr (trace st, Some final_gdf, True)
               else Inr (trace st, Some final_gdf, False)))"

section \<open>Properties of the store\<close>

lemma insert_or_ignore_present:
  "list_ex (\<lambda>q. key q = key r) tbl \<Longrightarrow> insert_or_ignore [key] tbl r = tbl"
  by (simp add: insert_or_ignore_def conflicts_def list_ex_iff eq_commute)

lemma insert_or_ignore_absent:
  "\<not> list_ex (\<lambda>q. key q = key r) tbl \<Longrightarrow> insert_or_ignore [key] tbl r = tbl @ [r]"
  by (simp add: insert_or_ignore_def conflicts_def list_ex_iff eq_commute)

text \<open>
  Claim C2. A tile write for a key that is already stored changes nothing: the store is
  the same, so the payload under the key is the one written first and the number of
  tile rows is unchanged. After a first write, the key is present, so a second write
  with the same (zoom, column, row) is ignored whatever its payload.
\<close>

theorem save_tile_first_write_wins:
  "(tile_present st zl col row \<longrightarrow> save_tile ok2 st zl col row d2 = st) \<and>
   (let st1 = save_tile True st zl col row d1;
        st2 = save_tile ok2 st1 zl col row d2
    in st2 = st1 \<and> tile_present st1 zl col row \<and>
       tile_payloads st2 zl col row = tile_payloads st1 zl col row \<and>
       length (tiles st2) = length (tiles st1) \<and>
       (\<not> tile_present st zl col row \<longrightarrow>
          tile_payloads st1 zl col row = [d1] \<and> length (tiles st1) = Suc (length (tiles st))))"
proof -
  have present: "save_tile b s zl col row d = s" if "tile_present s zl col row" for b s d
    using that insert_or_ignore_present [where key = tile_key and r = "(zl, col, row, d)" and tbl = "tiles s"]
    by (simp add: save_tile_def tile_present_def tile_index_def)
  have first: "tile_present (save_tile True st zl col row d1) zl col row"
  proof (cases "tile_present st zl col row")
    case True
    then show ?thesis by (simp add: present)
  next
    case False
    then have "tiles (save_tile True st zl col row d1) = tiles st @ [(zl, col, row, d1)]"
      using insert_or_ignore_absent [where key = tile_key and r = "(zl, col, row, d1)" and tbl = "tiles st"]
      by (simp add: save_tile_def tile_present_def tile_index_def)
    then show ?thesis by (simp add: tile_present_def)
  qed
  have fresh: "tile_payloads (save_tile True st zl col row d1) zl col row = [d1] \<and>
      length (tiles (save_tile True st zl col row d1)) = Suc (length (tiles st))"
    if "\<not> tile_present st zl col row"
  proof -
    have t: "tiles (save_tile True st zl col row d1) = tiles st @ [(zl, col, row, d1)]"
      using that insert_or_ignore_absent [where key = tile_key and r = "(zl, col, row, d1)" and tbl = "tiles st"]
      by (simp add: save_tile_def tile_present_def tile_index_def)
    have "filter (\<lambda>r. tile_key r = (zl, col, row)) (tiles st) = []"
      using that by (simp add: tile_present_def list_ex_iff filter_empty_conv)
    with t show ?thesis by (simp add: tile_payloads_def)
  qed
  show ?thesis
    using present first fresh by (simp add: Let_def)
qed

theorem save_tile_first_write_wins_witness:
  "tile_present (save_tile True \<lparr>metadata = [], tiles = []\<rparr> 3 1 2 ''first'') 3 1 2 \<and>
   save_tile True (save_tile True \<lparr>metadata = [], tiles = []\<rparr> 3 1 2 ''first'') 3 1 2 ''second''
     = \<lparr>metadata = [], tiles = [(3, 1, 2, ''first'')]\<rparr> \<and>
   tile_payloads (save_tile True (save_tile True \<lparr>metadata = [], tiles = []\<rparr> 3 1 2 ''first'') 3 1 2 ''second'') 3 1 2
     = [''first'']"
  using save_tile_first_write_wins [of "\<lparr>metadata = [], tiles = []\<rparr>" 3 1 2 True "''second''" "''first''"]
  by (simp add: Let_def save_tile_def insert_or_ignore_def conflicts_def tile_index_def
      tile_present_def tile_payloads_def)

text \<open>
  Claim C10. The metadata table has no unique index, so \<open>INSERT OR REPLACE\<close> never
  finds a row to replace: saving the metadata a second time appends six more rows, and
  the rows of the first call, with their old values, stay in the table.
\<close>

theorem save_metadata_twice_keeps_old_rows:
  "(case save_metadata True \<lparr>metadata = [], tiles = []\<rparr> ''old'' ''d'' ''b'' ''jpg'' of
      Inl e \<Rightarrow> False
    | Inr st1 \<Rightarrow>
       (case save_metadata True st1 ''new'' ''d'' ''b'' ''jpg'' of
          Inl e \<Rightarrow> False
        | Inr st2 \<Rightarrow> metadata_values st1 ''name'' = [''old''] \<and>
                     metadata_values st2 ''name'' = [''old'', ''new''] \<and>
                     length (metadata st2) = 12))"
  by (simp add: save_metadata_def insert_or_replace_def metadata_index_def conflicts_def
      metadata_values_def)

section \<open>Properties of the raster fetch functions\<close>

text \<open>
  Claim C9, as amended. Once the URL has been built (the template formats, and for
  GeoTiles the server list is not empty), both fetch functions return a triple that
  carries the tile they were given; an exception of the request is returned as the
  error message, with no payload, and a response carries no error message.
\<close>

theorem fetch_tile_content_returns_triple:
  "(fmt_url url_template tile = Inr url \<longrightarrow>
      (\<exists>payload err.
          fetch_tile_content fmt_url get tile url_template headers timeout
            = Inr (tile, payload, err) \<and>
          (\<forall>msg. get url headers timeout = Inl msg \<longrightarrow> payload = None \<and> err = Some msg) \<and>
          (\<forall>resp. get url headers timeout = Inr resp \<longrightarrow> err = None))) \<and>
   (servers \<noteq> [] \<and> fmt_url (servers ! (draw mod length servers)) tile = Inr url \<longrightarrow>
      (\<exists>payload err.
          fetch_tile_content_osm fmt_url get draw tile servers headers timeout
            = Inr (tile, payload, err) \<and>
          (\<forall>msg. get url headers timeout = Inl msg \<longrightarrow> payload = None \<and> err = Some msg) \<and>
          (\<forall>resp. get url headers timeout = Inr resp \<longrightarrow> err = None)))"
  by (cases "get url headers timeout")
     (simp_all add: fetch_tile_content_def fetch_tile_content_osm_def random_choice_def)

theorem fetch_tile_content_returns_triple_witness:
  "fetch_tile_content (\<lambda>template tile. Inr template)
       (\<lambda>url headers timeout. Inl ''Read timed out'') (Tile 1 2 3) ''u'' () ()
     = Inr (Tile 1 2 3, None, Some ''Read timed out'') \<and>
   fetch_tile_content_osm (\<lambda>template tile. Inr template)
       (\<lambda>url headers timeout. Inl ''Read timed out'') 5 (Tile 1 2 3) [''a'', ''b''] () ()
     = Inr (Tile 1 2 3, None, Some ''Read timed out'')"
  using fetch_tile_content_returns_triple [of "\<lambda>template tile. Inr template" "''u''" "Tile 1 2 3"
      "''u''" "\<lambda>url headers timeout. Inl ''Read timed out''" "()" "()" "[''u'', ''u'']" 5]
  by (simp add: fetch_tile_content_def fetch_tile_content_osm_def random_choice_def)

text \<open>
  Claim C9 as stated fails: the URL is built before the \<open>try\<close> block, so with an empty
  server list \<open>random.choice\<close> raises \<open>IndexError\<close> and the exception leaves the function.
\<close>

theorem fetch_tile_content_raises:
  "fetch_tile_content_osm (\<lambda>template tile. Inr template)
       (\<lambda>url headers timeout. Inr (Response 200 png_magic)) 0 (Tile 1 2 3) [] () ()
     = Inl IndexError"
  by (simp add: fetch_tile_content_osm_def random_choice_def)

text \<open>
  Claim C6. The GeoSatellite fetch looks for an HTML error page with the case-sensitive
  test \<open>b'<html' in resp.content[:50]\<close>. A 200 response whose body is an HTML page with
  its tag in upper case passes that test and is returned as the payload, where the claim
  has it classified as empty. The GeoTiles fetch, given the same response, returns no
  payload.
\<close>

theorem fetch_tile_content_html_as_success:
  "fetch_tile_content (\<lambda>template tile. Inr template)
       (\<lambda>url headers timeout. Inr (Response 200 ''<HTML><BODY>Service unavailable</BODY></HTML>''))
       (Tile 1 2 3) ''u'' () ()
     = Inr (Tile 1 2 3, Some ''<HTML><BODY>Service unavailable</BODY></HTML>'', None) \<and>
   fetch_tile_content_osm (\<lambda>template tile. Inr template)
       (\<lambda>url headers timeout. Inr (Response 200 ''<HTML><BODY>Service unavailable</BODY></HTML>''))
       0 (Tile 1 2 3) [''u''] () ()
     = Inr (Tile 1 2 3, None, None)"
  by (simp add: fetch_tile_content_def fetch_tile_content_osm_def random_choice_def
      startswith_def png_magic_def)

section \<open>Properties of the dispatcher\<close>























section \<open>Properties of the partition\<close>

lemma foldl_append_inner:
  "foldl (\<lambda>acc j. acc @ f j) acc ys = acc @ concat (map f ys)"
  by (induction ys arbitrary: acc) simp_all

lemma foldl_append_grid:
  "foldl (\<lambda>acc i. foldl (\<lambda>acc j. acc @ f i j) acc ys) acc xs
     = acc @ concat (map (\<lambda>(i, j). f i j) (List.product xs ys))"
  by (induction xs arbitrary: acc) (simp_all add: foldl_append_inner comp_def)

lemma foldl_if_append_inner:
  "foldl (\<lambda>acc j. if P j then acc @ [g j] else acc) acc ys
     = acc @ concat (map (\<lambda>j. if P j then [g j] else []) ys)"
  by (induction ys arbitrary: acc) simp_all

lemma foldl_if_append_grid:
  "foldl (\<lambda>acc i. foldl (\<lambda>acc j. if P i j then acc @ [g i j] else acc) acc ys) acc xs
     = acc @ concat (map (\<lambda>(i, j). if P i j then [g i j] else []) (List.product xs ys))"
  by (induction xs arbitrary: acc) (simp_all add: foldl_if_append_inner comp_def)

lemma concat_map_if: "concat (map (\<lambda>c. if P (g c) then [g c] else []) cs) = filter P (map g cs)"
  by (induction cs) simp_all

lemma grid_size_pos:
  assumes "0 < max_area" "\<not> area \<le> max_area"
  shows "grid_size area max_area = Inr (max 2 (nat \<lceil>sqrt (area / max_area)\<rceil>))"
proof -
  from assms have "0 < area" by linarith
  with assms(1) have "0 < area / max_area" by simp
  with assms(1) show ?thesis by (simp add: grid_size_def)
qed

text \<open>
  Claim C1. For a positive limit: when the area estimate of the bounds is at most the
  limit, the partition is the region alone. Otherwise, with
  \<open>k = max 2 (ceil (sqrt (area / max_area)))\<close>, the grid has \<open>k * k\<close> cells over the
  bounding rectangle, in column-major order; the boundary download keeps every cell, and
  \<open>fetch_layer\<close> returns the intersections of the polygon with the cells, in that order,
  without the empty ones.
\<close>

theorem partition_grid:
  assumes "0 < max_area" and "bounds polygon_geom = (w, s, e, n)"
  shows "(bbox_area w s e n \<le> max_area \<longrightarrow>
            fetch_layer_tiles bounds box intersection is_empty polygon_geom max_area
              = Inr [polygon_geom] \<and>
            voivodeship_tiles (w, s, e, n) max_area = Inr [(w, s, e, n)]) \<and>
         (\<not> bbox_area w s e n \<le> max_area \<longrightarrow>
            (let k = max 2 (nat \<lceil>sqrt (bbox_area w s e n / max_area)\<rceil>);
                 cells = map (\<lambda>(i, j). grid_cell w s ((e - w) / real k) ((n - s) / real k) i j)
                           (List.product [0..<k] [0..<k])
             in 2 \<le> k \<and> length cells = k * k \<and>
                voivodeship_tiles (w, s, e, n) max_area = Inr cells \<and>
                fetch_layer_tiles bounds box intersection is_empty polygon_geom max_area
                  = Inr (filter (\<lambda>p. \<not> is_empty p)
                          (map (\<lambda>c. intersection polygon_geom (box c)) cells))))"
proof (intro conjI impI)
  assume "bbox_area w s e n \<le> max_area"
  then show "fetch_layer_tiles bounds box intersection is_empty polygon_geom max_area
              = Inr [polygon_geom]"
    and "voivodeship_tiles (w, s, e, n) max_area = Inr [(w, s, e, n)]"
    using assms(2) by (simp_all add: fetch_layer_tiles_def voivodeship_tiles_def)
next
  assume big: "\<not> bbox_area w s e n \<le> max_area"
  define k where "k = max 2 (nat \<lceil>sqrt (bbox_area w s e n / max_area)\<rceil>)"
  define cells where "cells = map (\<lambda>(i, j). grid_cell w s ((e - w) / real k) ((n - s) / real k) i j)
                           (List.product [0..<k] [0..<k])"
  have k2: "2 \<le> k"
    by (simp add: k_def)
  have gs: "grid_size (bbox_area w s e n) max_area = Inr k"
    using grid_size_pos [OF assms(1) big] by (simp add: k_def)
  have len: "length cells = k * k"
    by (simp add: cells_def)
  have voiv: "voivodeship_tiles (w, s, e, n) max_area = Inr cells"
    using big gs
    foldl_append_grid [where f = "\<lambda>i j. [grid_cell w s ((e - w) / real k) ((n - s) / real k) i j]"
        and acc = "[]" and xs = "[0..<k]" and ys = "[0..<k]"]
    by (simp add: voivodeship_tiles_def Let_def cells_def split_def)
  have layer: "fetch_layer_tiles bounds box intersection is_empty polygon_geom max_area
                  = Inr (filter (\<lambda>p. \<not> is_empty p)
                          (map (\<lambda>c. intersection polygon_geom (box c)) cells))"
  proof -
    have "fetch_layer_tiles bounds box intersection is_empty polygon_geom max_area
      = Inr (concat (map (\<lambda>(i, j). if \<not> is_empty (intersection polygon_geom
                  (box (grid_cell w s ((e - w) / real k) ((n - s) / real k) i j)))
                then [intersection polygon_geom
                  (box (grid_cell w s ((e - w) / real k) ((n - s) / real k) i j))] else [])
            (List.product [0..<k] [0..<k])))"
      using big gs assms(2)
      by (simp add: fetch_layer_tiles_def Let_def foldl_if_append_grid)
    also have "\<dots> = Inr (concat (map (\<lambda>c. if \<not> is_empty (intersection polygon_geom (box c))
                then [intersection polygon_geom (box c)] else []) cells))"
      by (simp add: cells_def comp_def split_def)
    also have "\<dots> = Inr (filter (\<lambda>p. \<not> is_empty p)
                          (map (\<lambda>c. intersection polygon_geom (box c)) cells))"
      using concat_map_if [where P = "\<lambda>p. \<not> is_empty p"
          and g = "\<lambda>c. intersection polygon_geom (box c)" and cs = cells]
      by simp
    finally show ?thesis .
  qed
  show "let k = max 2 (nat \<lceil>sqrt (bbox_area w s e n / max_area)\<rceil>);
                 cells = map (\<lambda>(i, j). grid_cell w s ((e - w) / real k) ((n - s) / real k) i j)
                           (List.product [0..<k] [0..<k])
             in 2 \<le> k \<and> length cells = k * k \<and>
                voivodeship_tiles (w, s, e, n) max_area = Inr cells \<and>
                fetch_layer_tiles bounds box intersection is_empty polygon_geom max_area
                  = Inr (filter (\<lambda>p. \<not> is_empty p)
                          (map (\<lambda>c. intersection polygon_geom (box c)) cells))"
    unfolding Let_def k_def [symmetric] cells_def [symmetric]
    using k2 len voiv layer by simp
qed


theorem partition_grid_witness:
  "fetch_layer_tiles
      (\<lambda>p. (Min (set (map (\<lambda>(a, b, c, d). a) p)), Min (set (map (\<lambda>(a, b, c, d). b) p)),
             Max (set (map (\<lambda>(a, b, c, d). c) p)), Max (set (map (\<lambda>(a, b, c, d). d) p))))
      (\<lambda>c. [c])
      (\<lambda>p q. filter (\<lambda>(a, b, c, d). a < c \<and> b < d)
                (map (\<lambda>((a, b, c, d), (a', b', c', d')). (max a a', max b b', min c c', min d d'))
                   (List.product p q)))
      (\<lambda>p. p = [])
      [(0, -1, 2, 1), (2, -1, 4, 0)] 24784284800
     = Inr [[(0, -1, 2, 0)], [(0, 0, 2, 1)], [(2, -1, 4, 0)]] \<and>
   voivodeship_tiles (0, -1, 4, 1) 24784284800
     = Inr [(0, -1, 2, 0), (0, 0, 2, 1), (2, -1, 4, 0), (2, 0, 4, 1)] \<and>
   voivodeship_tiles (0, -1, 4, 1) 99137139200 = Inr [(0, -1, 4, 1)]"
proof -
  have area: "bbox_area 0 (-1) 4 1 = 99137139200"
    by (simp add: bbox_area_def)
  have k: "nat \<lceil>sqrt (99137139200 / 24784284800 :: real)\<rceil> = 2"
    by simp
  have up: "[0..<2] = [0, 1]"
    by (simp add: upt_rec)
  show ?thesis
    using partition_grid [where max_area = 24784284800 and w = 0 and s = "-1" and e = 4 and n = 1
        and polygon_geom = "[(0, -1, 2, 1), (2, -1, 4, 0)]"
        and bounds = "\<lambda>p. (Min (set (map (\<lambda>(a, b, c, d). a) p)), Min (set (map (\<lambda>(a, b, c, d). b) p)),
             Max (set (map (\<lambda>(a, b, c, d). c) p)), Max (set (map (\<lambda>(a, b, c, d). d) p)))"
        and box = "\<lambda>c. [c]"
        and intersection = "\<lambda>p q. filter (\<lambda>(a, b, c, d). a < c \<and> b < d)
                (map (\<lambda>((a, b, c, d), (a', b', c', d')). (max a a', max b b', min c c', min d d'))
                   (List.product p q))"
        and is_empty = "\<lambda>p. p = []"]
      partition_grid [where max_area = 99137139200 and w = 0 and s = "-1" and e = 4 and n = 1
        and polygon_geom = "(0, -1, 4, 1)" and bounds = "\<lambda>p. p" and box = "\<lambda>c. c"
        and intersection = "\<lambda>p q. p" and is_empty = "\<lambda>p. False"]
    by (simp add: area k up grid_cell_def)
qed

section \<open>Properties of the merge\<close>

lemma drop_seen_subseq: "subseq (drop_seen seen key rs) rs"
  by (induction rs arbitrary: seen) auto

lemma drop_seen_keys: "r \<in> set (drop_seen seen key rs) \<Longrightarrow> key r \<notin> set seen"
proof (induction rs arbitrary: seen)
  case Nil
  then show ?case by simp
next
  case (Cons a rs)
  show ?case
  proof (cases "key a \<in> set seen")
    case True
    with Cons.prems have "r \<in> set (drop_seen seen key rs)" by simp
    then show ?thesis by (rule Cons.IH)
  next
    case False
    with Cons.prems consider "r = a" | "r \<in> set (drop_seen (key a # seen) key rs)"
      by auto
    then show ?thesis
    proof cases
      case 1
      with False show ?thesis by simp
    next
      case 2
      from Cons.IH [OF this] show ?thesis by simp
    qed
  qed
qed

lemma drop_seen_distinct: "distinct (map key (drop_seen seen key rs))"
proof (induction rs arbitrary: seen)
  case Nil
  then show ?case by simp
next
  case (Cons r rs)
  have "key r \<notin> key ` set (drop_seen (key r # seen) key rs)"
  proof
    assume "key r \<in> key ` set (drop_seen (key r # seen) key rs)"
    then obtain q where q: "q \<in> set (drop_seen (key r # seen) key rs)" and "key q = key r"
      by force
    with drop_seen_keys [OF q] show False by simp
  qed
  with Cons.IH show ?case by simp
qed

lemma drop_seen_find:
  "v \<notin> set seen \<Longrightarrow>
     find (\<lambda>q. key q = v) (drop_seen seen key rs) = find (\<lambda>q. key q = v) rs"
proof (induction rs arbitrary: seen)
  case Nil
  then show ?case by simp
next
  case (Cons r rs)
  show ?case
  proof (cases "key r \<in> set seen")
    case True
    with Cons.prems have "key r \<noteq> v" by auto
    with True Cons.IH [OF Cons.prems] show ?thesis by simp
  next
    case False
    show ?thesis
    proof (cases "key r = v")
      case True
      with False show ?thesis by simp
    next
      case neq: False
      with Cons.prems have "v \<notin> set (key r # seen)" by auto
      from Cons.IH [OF this] False neq show ?thesis by simp
    qed
  qed
qed

text \<open>
  Claim C5. When some partial result has the column \<open>osmid\<close>, the merged rows are a
  subsequence of the chained rows in partition order, no two of them have the same
  \<open>osmid\<close> value, and for every chained row the merged row with its identity is the first
  chained row with that identity. When no partial result has the column, the merged rows
  are the chained rows, all of them. (With the column present, rows whose \<open>osmid\<close> cell is
  missing share the missing value as their identity, as in pandas.)
\<close>

theorem merge_frames_keeps_first_occurrence:
  "(''osmid'' \<in> set (concat (map gdf_columns fs)) \<longrightarrow>
      subseq (gdf_rows (merge_frames fs)) (concat (map gdf_rows fs)) \<and>
      distinct (map osmid (gdf_rows (merge_frames fs))) \<and>
      (\<forall>r \<in> set (concat (map gdf_rows fs)).
          find (\<lambda>q. osmid q = osmid r) (gdf_rows (merge_frames fs))
            = find (\<lambda>q. osmid q = osmid r) (concat (map gdf_rows fs)))) \<and>
   (\<not> ''osmid'' \<in> set (concat (map gdf_columns fs)) \<longrightarrow>
      gdf_rows (merge_frames fs) = concat (map gdf_rows fs))"
proof -
  have cols: "(''osmid'' \<in> set (gdf_columns (concat_frames fs)))
      = (''osmid'' \<in> set (concat (map gdf_columns fs)))"
    by (simp add: concat_frames_def)
  have rows: "gdf_rows (concat_frames fs) = concat (map gdf_rows fs)"
    by (simp add: concat_frames_def)
  show ?thesis
  proof (cases "''osmid'' \<in> set (concat (map gdf_columns fs))")
    case True
    then have m: "gdf_rows (merge_frames fs) = drop_seen [] osmid (concat (map gdf_rows fs))"
      by (simp add: merge_frames_def Let_def cols rows drop_duplicates_osmid_def)
    show ?thesis
      using True by (simp add: m drop_seen_subseq drop_seen_distinct drop_seen_find)
  next
    case False
    then show ?thesis
      by (simp add: merge_frames_def Let_def cols rows)
  qed
qed

theorem merge_frames_keeps_first_occurrence_witness:
  "gdf_rows (merge_frames
      [GeoDataFrame [''osmid'', ''name''] [[(''osmid'', ''1''), (''name'', ''a'')]],
       GeoDataFrame [''osmid'', ''name''] [[(''osmid'', ''1''), (''name'', ''b'')],
                                           [(''osmid'', ''2''), (''name'', ''c'')]]])
     = [[(''osmid'', ''1''), (''name'', ''a'')], [(''osmid'', ''2''), (''name'', ''c'')]] \<and>
   find (\<lambda>q. osmid q = Some ''1'') (gdf_rows (merge_frames
      [GeoDataFrame [''osmid'', ''name''] [[(''osmid'', ''1''), (''name'', ''a'')]],
       GeoDataFrame [''osmid'', ''name''] [[(''osmid'', ''1''), (''name'', ''b'')],
                                           [(''osmid'', ''2''), (''name'', ''c'')]]]))
     = Some [(''osmid'', ''1''), (''name'', ''a'')] \<and>
   gdf_rows (merge_frames
      [GeoDataFrame [''name''] [[(''name'', ''a'')]],
       GeoDataFrame [''name''] [[(''name'', ''a'')]]])
     = [[(''name'', ''a'')], [(''name'', ''a'')]]"
  using merge_frames_keeps_first_occurrence [of
      "[GeoDataFrame [''osmid'', ''name''] [[(''osmid'', ''1''), (''name'', ''a'')]],
       GeoDataFrame [''osmid'', ''name''] [[(''osmid'', ''1''), (''name'', ''b'')],
                                           [(''osmid'', ''2''), (''name'', ''c'')]]]"]
    merge_frames_keeps_first_occurrence [of
      "[GeoDataFrame [''name''] [[(''name'', ''a'')]],
        GeoDataFrame [''name''] [[(''name'', ''a'')]]]"]
  by (simp add: merge_frames_def concat_frames_def drop_duplicates_osmid_def osmid_def)

section \<open>Properties of the retry loop\<close>

lemma attempts_of_append: "attempts_of i (xs @ ys) = attempts_of i xs @ attempts_of i ys"
  by (induction i xs rule: attempts_of.induct) simp_all

lemma attempts_loop_raise_step:
  assumes "\<not> stop i a" and "ox (current_server servers i a) g i a = Inl msg"
  shows "attempts_loop ds servers stop ox i g (a # rest) st =
         attempts_loop ds servers stop ox i g rest
           (st\<lparr>trace := trace st @ Attempt i a (current_server servers i a) #
               (if int a < max_attempts ds then [Sleep (wait_time_for ds msg)] else [])\<rparr>)"
  using assms by (simp add: Let_def)

lemma attempts_loop_return_step:
  assumes "\<not> stop i a" and "ox (current_server servers i a) g i a = Inr gdf"
  shows "attempts_loop ds servers stop ox i g (a # rest) st =
         st\<lparr>frames := frames st @ (if gdf_empty gdf then [] else [gdf]),
            trace := trace st @ [Attempt i a (current_server servers i a)]\<rparr>"
  using assms by (simp add: Let_def)

lemma attempts_loop_extends:
  "trace (attempts_loop ds servers stop ox i g as st) =
     trace st @ trace (attempts_loop ds servers stop ox i g as \<lparr>frames = [], trace = []\<rparr>) \<and>
   frames (attempts_loop ds servers stop ox i g as st) =
     frames st @ frames (attempts_loop ds servers stop ox i g as \<lparr>frames = [], trace = []\<rparr>)"
proof (induction as arbitrary: st)
  case Nil
  then show ?case by simp
next
  case (Cons a rest)
  show ?case
  proof (cases "stop i a")
    case True
    then show ?thesis by simp
  next
    case False
    show ?thesis
    proof (cases "ox (current_server servers i a) g i a")
      case (Inr gdf)
      show ?thesis
        by (simp add: attempts_loop_return_step [where stop = stop and ox = ox, OF False Inr]
            del: attempts_loop.simps)
    next
      case (Inl msg)
      define ev where "ev = Attempt i a (current_server servers i a) #
               (if int a < max_attempts ds then [Sleep (wait_time_for ds msg)] else [])"
      have l: "attempts_loop ds servers stop ox i g (a # rest) s =
          attempts_loop ds servers stop ox i g rest (s\<lparr>trace := trace s @ ev\<rparr>)" for s
        unfolding ev_def by (rule attempts_loop_raise_step [where stop = stop and ox = ox, OF False Inl])
      show ?thesis
        using Cons.IH [of "st\<lparr>trace := trace st @ ev\<rparr>"]
          Cons.IH [of "\<lparr>frames = [], trace = ev\<rparr>"]
        by (simp add: l del: attempts_loop.simps)
    qed
  qed
qed

lemma attempts_loop_attempts:
  "set (attempts_of j (trace (attempts_loop ds servers stop ox i g as st)))
     \<subseteq> set (attempts_of j (trace st)) \<union> (if j = i then (\<lambda>a. (a, current_server servers i a)) ` set as else {})"
proof (induction as arbitrary: st)
  case Nil
  then show ?case by simp
next
  case (Cons a rest)
  show ?case
  proof (cases "stop i a")
    case True
    then show ?thesis by simp
  next
    case False
    show ?thesis
    proof (cases "ox (current_server servers i a) g i a")
      case (Inr gdf)
      show ?thesis
        by (simp add: attempts_loop_return_step [where stop = stop and ox = ox, OF False Inr]
            attempts_of_append del: attempts_loop.simps)
    next
      case (Inl msg)
      show ?thesis
        using Cons.IH [of "st\<lparr>trace := trace st @ Attempt i a (current_server servers i a) #
               (if int a < max_attempts ds then [Sleep (wait_time_for ds msg)] else [])\<rparr>"]
        by (auto simp: attempts_loop_raise_step [where stop = stop and ox = ox, OF False Inl]
            attempts_of_append simp del: attempts_loop.simps split: if_splits)
    qed
  qed
qed

lemma attempts_loop_bound:
  "length (attempts_of j (trace (attempts_loop ds servers stop ox i g as st)))
     \<le> length (attempts_of j (trace st)) + length as"
proof (induction as arbitrary: st)
  case Nil
  then show ?case by simp
next
  case (Cons a rest)
  show ?case
  proof (cases "stop i a")
    case True
    then show ?thesis by simp
  next
    case False
    show ?thesis
    proof (cases "ox (current_server servers i a) g i a")
      case (Inr gdf)
      show ?thesis
        by (simp add: attempts_loop_return_step [where stop = stop and ox = ox, OF False Inr]
            attempts_of_append del: attempts_loop.simps)
    next
      case (Inl msg)
      show ?thesis
        using Cons.IH [of "st\<lparr>trace := trace st @ Attempt i a (current_server servers i a) #
               (if int a < max_attempts ds then [Sleep (wait_time_for ds msg)] else [])\<rparr>"]
        by (simp add: attempts_loop_raise_step [where stop = stop and ox = ox, OF False Inl]
            attempts_of_append del: attempts_loop.simps split: if_splits)
    qed
  qed
qed

lemma attempts_loop_raising_prefix:
  assumes "\<forall>a \<in> set as1. \<not> stop i a \<and> isl (ox (current_server servers i a) g i a)"
  shows "\<exists>st'. attempts_loop ds servers stop ox i g (as1 @ as2) st
                 = attempts_loop ds servers stop ox i g as2 st' \<and>
               frames st' = frames st \<and>
               attempts_of i (trace st') =
                 attempts_of i (trace st) @ map (\<lambda>a. (a, current_server servers i a)) as1"
  using assms
proof (induction as1 arbitrary: st)
  case Nil
  show ?case by (rule exI [of _ st]) simp
next
  case (Cons a rest)
  from Cons.prems have ns: "\<not> stop i a" and "isl (ox (current_server servers i a) g i a)"
    by simp_all
  then obtain msg where msg: "ox (current_server servers i a) g i a = Inl msg"
    by (auto simp: isl_def)
  define st1 where "st1 = st\<lparr>trace := trace st @ Attempt i a (current_server servers i a) #
               (if int a < max_attempts ds then [Sleep (wait_time_for ds msg)] else [])\<rparr>"
  have step: "attempts_loop ds servers stop ox i g ((a # rest) @ as2) st
      = attempts_loop ds servers stop ox i g (rest @ as2) st1"
    unfolding st1_def using attempts_loop_raise_step [where stop = stop and ox = ox, OF ns msg]
    by (simp del: attempts_loop.simps)
  from Cons.prems have "\<forall>a \<in> set rest. \<not> stop i a \<and> isl (ox (current_server servers i a) g i a)"
    by simp
  from Cons.IH [OF this, of st1]
  obtain st' where st': "attempts_loop ds servers stop ox i g (rest @ as2) st1
                 = attempts_loop ds servers stop ox i g as2 st'"
     "frames st' = frames st1"
     "attempts_of i (trace st') =
                 attempts_of i (trace st1) @ map (\<lambda>a. (a, current_server servers i a)) rest"
    by blast
  have "frames st1 = frames st" by (simp add: st1_def)
  moreover have "attempts_of i (trace st1) = attempts_of i (trace st) @ [(a, current_server servers i a)]"
    by (simp add: st1_def attempts_of_append)
  ultimately show ?case
    using step st' by (intro exI [of _ st']) simp
qed

lemma tiles_loop_decompose:
  "frames (tiles_loop ds servers stop ox len_tiles us st) =
     frames st @ concat (map (\<lambda>(i, g). frames (attempts_loop ds servers stop ox i g
        [1..<nat (max_attempts ds + 1)] \<lparr>frames = [], trace = []\<rparr>)) us) \<and>
   attempts_of j (trace (tiles_loop ds servers stop ox len_tiles us st)) =
     attempts_of j (trace st) @ concat (map (\<lambda>(i, g). attempts_of j (trace (attempts_loop ds
        servers stop ox i g [1..<nat (max_attempts ds + 1)] \<lparr>frames = [], trace = []\<rparr>))) us)"
proof (induction us arbitrary: st)
  case Nil
  then show ?case by simp
next
  case (Cons u us)
  obtain i g where u: "u = (i, g)" by (cases u)
  define st1 where "st1 = attempts_loop ds servers stop ox i g [1..<nat (max_attempts ds + 1)] st"
  define st2 where "st2 = (if i < len_tiles then st1\<lparr>trace := trace st1 @ [Pause]\<rparr> else st1)"
  have step: "tiles_loop ds servers stop ox len_tiles (u # us) st
      = tiles_loop ds servers stop ox len_tiles us st2"
    by (simp add: u st1_def st2_def Let_def)
  have ext: "trace st1 = trace st @ trace (attempts_loop ds servers stop ox i g
        [1..<nat (max_attempts ds + 1)] \<lparr>frames = [], trace = []\<rparr>)"
      "frames st1 = frames st @ frames (attempts_loop ds servers stop ox i g
        [1..<nat (max_attempts ds + 1)] \<lparr>frames = [], trace = []\<rparr>)"
    unfolding st1_def using attempts_loop_extends [of ds servers stop ox i g _ st] by simp_all
  have f2: "frames st2 = frames st1"
    by (simp add: st2_def)
  have a2: "attempts_of j (trace st2) = attempts_of j (trace st1)"
    by (simp add: st2_def attempts_of_append)
  show ?case
    unfolding step using Cons.IH [of st2]
    by (simp add: f2 a2 ext attempts_of_append u)
qed

lemma attempts_loop_other_unit:
  assumes "j \<noteq> i"
  shows "attempts_of j (trace (attempts_loop ds servers stop ox i g as \<lparr>frames = [], trace = []\<rparr>)) = []"
  using attempts_loop_attempts [of j ds servers stop ox i g as "\<lparr>frames = [], trace = []\<rparr>"] assms
  by simp

lemma concat_single:
  assumes "distinct (map fst us)" and "\<And>i g. i \<noteq> j \<Longrightarrow> F i g = []"
  shows "concat (map (\<lambda>(i, g). F i g) us) = (case map_of us j of None \<Rightarrow> [] | Some g \<Rightarrow> F j g)"
  using assms(1)
proof (induction us)
  case Nil
  then show ?case by simp
next
  case (Cons u us)
  obtain i g where u: "u = (i, g)" by (cases u)
  show ?case
  proof (cases "i = j")
    case True
    with Cons.prems u have "map_of us j = None"
      by (simp add: map_of_eq_None_iff)
    with Cons True u show ?thesis by simp
  next
    case False
    with Cons u assms(2) [OF False] show ?thesis by simp
  qed
qed

lemma map_of_enumerate:
  assumes "1 \<le> j" "j \<le> length tls"
  shows "map_of (zip [1..<Suc (length tls)] tls) j = Some (tls ! (j - 1))"
proof -
  have "map_of (zip [1..<Suc (length tls)] tls) ([1..<Suc (length tls)] ! (j - 1)) = Some (tls ! (j - 1))"
    using assms by (intro map_of_zip_nth) simp_all
  moreover have "[1..<Suc (length tls)] ! (j - 1) = j"
    using assms by (simp del: upt_Suc)
  ultimately show ?thesis by simp
qed

lemma download_tiles_unit:
  assumes "1 \<le> j" "j \<le> length tls"
  shows "attempts_of j (trace (download_tiles ds servers stop ox tls)) =
     attempts_of j (trace (attempts_loop ds servers stop ox j (tls ! (j - 1))
        [1..<nat (max_attempts ds + 1)] \<lparr>frames = [], trace = []\<rparr>))"
proof -
  have "attempts_of j (trace (download_tiles ds servers stop ox tls)) =
      concat (map (\<lambda>(i, g). attempts_of j (trace (attempts_loop ds
        servers stop ox i g [1..<nat (max_attempts ds + 1)] \<lparr>frames = [], trace = []\<rparr>)))
        (zip [1..<Suc (length tls)] tls))"
    unfolding download_tiles_def
    using tiles_loop_decompose [of ds servers stop ox "length tls" _ "\<lparr>frames = [], trace = []\<rparr>" j]
    by simp
  also have "\<dots> = (case map_of (zip [1..<Suc (length tls)] tls) j of None \<Rightarrow> []
      | Some g \<Rightarrow> attempts_of j (trace (attempts_loop ds
        servers stop ox j g [1..<nat (max_attempts ds + 1)] \<lparr>frames = [], trace = []\<rparr>)))"
    by (rule concat_single) (simp_all add: attempts_loop_other_unit del: upt_Suc)
  finally have eq: "attempts_of j (trace (download_tiles ds servers stop ox tls)) =
      (case map_of (zip [1..<Suc (length tls)] tls) j of None \<Rightarrow> []
      | Some g \<Rightarrow> attempts_of j (trace (attempts_loop ds
        servers stop ox j g [1..<nat (max_attempts ds + 1)] \<lparr>frames = [], trace = []\<rparr>)))" .
  show ?thesis
    unfolding eq map_of_enumerate [OF assms] by simp
qed

lemma download_tiles_attempts:
  assumes "(a, srv) \<in> set (attempts_of j (trace (download_tiles ds servers stop ox tls)))"
  shows "srv = current_server servers j a \<and> 1 \<le> a \<and> int a \<le> max_attempts ds"
proof -
  have "attempts_of j (trace (download_tiles ds servers stop ox tls)) =
      concat (map (\<lambda>(i, g). attempts_of j (trace (attempts_loop ds
        servers stop ox i g [1..<nat (max_attempts ds + 1)] \<lparr>frames = [], trace = []\<rparr>)))
        (zip [1..<Suc (length tls)] tls))"
    unfolding download_tiles_def
    using tiles_loop_decompose [of ds servers stop ox "length tls" _ "\<lparr>frames = [], trace = []\<rparr>" j]
    by simp
  with assms obtain i g where
    "(a, srv) \<in> set (attempts_of j (trace (attempts_loop ds
        servers stop ox i g [1..<nat (max_attempts ds + 1)] \<lparr>frames = [], trace = []\<rparr>)))"
    by auto
  with attempts_loop_attempts [of j ds servers stop ox i g "[1..<nat (max_attempts ds + 1)]"
      "\<lparr>frames = [], trace = []\<rparr>"]
  have "(a, srv) \<in> (\<lambda>a. (a, current_server servers j a)) ` set [1..<nat (max_attempts ds + 1)]"
    by (auto split: if_splits)
  then show ?thesis by auto
qed

lemma download_tiles_bound:
  "length (attempts_of j (trace (download_tiles ds servers stop ox tls))) \<le> nat (max_attempts ds)"
proof (cases "1 \<le> j \<and> j \<le> length tls")
  case True
  then have "length (attempts_of j (trace (download_tiles ds servers stop ox tls)))
      \<le> length [1..<nat (max_attempts ds + 1)]"
    using attempts_loop_bound [of j ds servers stop ox j "tls ! (j - 1)"
        "[1..<nat (max_attempts ds + 1)]" "\<lparr>frames = [], trace = []\<rparr>"]
    by (simp add: download_tiles_unit)
  then show ?thesis by simp
next
  case False
  have "attempts_of j (trace (download_tiles ds servers stop ox tls)) =
      concat (map (\<lambda>(i, g). attempts_of j (trace (attempts_loop ds
        servers stop ox i g [1..<nat (max_attempts ds + 1)] \<lparr>frames = [], trace = []\<rparr>)))
        (zip [1..<Suc (length tls)] tls))"
    unfolding download_tiles_def
    using tiles_loop_decompose [of ds servers stop ox "length tls" _ "\<lparr>frames = [], trace = []\<rparr>" j]
    by simp
  also have "\<dots> = (case map_of (zip [1..<Suc (length tls)] tls) j of None \<Rightarrow> []
      | Some g \<Rightarrow> attempts_of j (trace (attempts_loop ds
        servers stop ox j g [1..<nat (max_attempts ds + 1)] \<lparr>frames = [], trace = []\<rparr>)))"
    by (rule concat_single) (simp_all add: attempts_loop_other_unit del: upt_Suc)
  also have "map_of (zip [1..<Suc (length tls)] tls) j = None"
    using False by (auto simp: map_of_eq_None_iff simp del: upt_Suc dest!: set_zip_leftD)
  finally show ?thesis by simp
qed

lemma first_attempt_of_list:
  assumes "\<not> stop j a"
  shows "\<exists>r. attempts_of j (trace (attempts_loop ds servers stop ox j g (a # rest)
        \<lparr>frames = [], trace = []\<rparr>)) = (a, current_server servers j a) # r"
proof (cases "ox (current_server servers j a) g j a")
  case (Inr gdf)
  show ?thesis
    by (simp add: attempts_loop_return_step [where stop = stop and ox = ox, OF assms Inr]
        del: attempts_loop.simps)
next
  case (Inl msg)
  show ?thesis
    using attempts_loop_extends [of ds servers stop ox j g rest
        "\<lparr>frames = [], trace = Attempt j a (current_server servers j a) #
             (if int a < max_attempts ds then [Sleep (wait_time_for ds msg)] else [])\<rparr>"]
    by (simp add: attempts_loop_raise_step [where stop = stop and ox = ox, OF assms Inl]
        attempts_of_append del: attempts_loop.simps)
qed

lemma first_attempt:
  assumes "\<not> stop j 1" "1 \<le> max_attempts ds"
  shows "\<exists>rest. attempts_of j (trace (attempts_loop ds servers stop ox j g
        [1..<nat (max_attempts ds + 1)] \<lparr>frames = [], trace = []\<rparr>))
      = (1, current_server servers j 1) # rest"
proof -
  have full: "[1..<nat (max_attempts ds + 1)] = 1 # [Suc 1..<nat (max_attempts ds + 1)]"
    by (rule upt_conv_Cons) (use assms(2) in simp)
  show ?thesis
    unfolding full by (rule first_attempt_of_list [where stop = stop, OF assms(1)])
qed

text \<open>
  Claim C4, as amended. Take a tile whose every attempt raises, with no stop requested
  during it. Its attempts in the trace of the whole download are exactly the attempts
  1 to \<open>max_attempts\<close>, each against the server of the rotation; no tile of the run has
  more than \<open>max_attempts\<close> attempts; the retry loop of the failing tile leaves \<open>frames\<close>
  as it found it; and the next tile, if there is one and no stop is requested, gets its
  first attempt. Nothing is counted: the loop keeps no tally of failed tiles.
\<close>

theorem retry_exhaustion:
  assumes "1 \<le> i" and "i \<le> length tls"
    and "\<forall>a. 1 \<le> a \<and> int a \<le> max_attempts ds \<longrightarrow>
           \<not> stop i a \<and> isl (ox (current_server servers i a) (tls ! (i - 1)) i a)"
  shows "attempts_of i (trace (download_tiles ds servers stop ox tls))
           = map (\<lambda>a. (a, current_server servers i a)) [1..<nat (max_attempts ds + 1)] \<and>
         length (attempts_of i (trace (download_tiles ds servers stop ox tls)))
           = nat (max_attempts ds) \<and>
         (\<forall>j. length (attempts_of j (trace (download_tiles ds servers stop ox tls)))
                \<le> nat (max_attempts ds)) \<and>
         (\<forall>st. frames (attempts_loop ds servers stop ox i (tls ! (i - 1))
                        [1..<nat (max_attempts ds + 1)] st) = frames st) \<and>
         (i < length tls \<and> \<not> stop (Suc i) 1 \<and> 1 \<le> max_attempts ds \<longrightarrow>
            (\<exists>rest. attempts_of (Suc i) (trace (download_tiles ds servers stop ox tls))
                      = (1, current_server servers (Suc i) 1) # rest))"
proof -
  define full where "full = [1..<nat (max_attempts ds + 1)]"
  have all: "\<forall>a \<in> set full. \<not> stop i a \<and> isl (ox (current_server servers i a) (tls ! (i - 1)) i a)"
    using assms(3) by (auto simp: full_def)
  have run: "frames (attempts_loop ds servers stop ox i (tls ! (i - 1)) full st) = frames st \<and>
      attempts_of i (trace (attempts_loop ds servers stop ox i (tls ! (i - 1)) full st))
        = attempts_of i (trace st) @ map (\<lambda>a. (a, current_server servers i a)) full" for st
    using attempts_loop_raising_prefix [where stop = stop and ox = ox and ds = ds and st = st
        and ?as2.0 = "[]", OF all]
    by auto
  have a: "attempts_of i (trace (download_tiles ds servers stop ox tls))
           = map (\<lambda>a. (a, current_server servers i a)) full"
    using run [of "\<lparr>frames = [], trace = []\<rparr>"]
    by (simp add: download_tiles_unit [OF assms(1,2)] full_def)
  have b: "length (attempts_of i (trace (download_tiles ds servers stop ox tls)))
           = nat (max_attempts ds)"
    by (simp add: a full_def)
  have c: "\<exists>rest. attempts_of (Suc i) (trace (download_tiles ds servers stop ox tls))
                      = (1, current_server servers (Suc i) 1) # rest"
    if "i < length tls" "\<not> stop (Suc i) 1" "1 \<le> max_attempts ds"
    using first_attempt [where stop = stop, OF that(2,3)] that(1)
    by (simp add: download_tiles_unit)
  show ?thesis
    using a b c run download_tiles_bound unfolding full_def by blast
qed

theorem retry_exhaustion_witness:
  "attempts_of 1 (trace (download_tiles
      \<lparr>max_attempts = 3, sleep_on_timeout = 30, sleep_on_rate_limit = 45, sleep_on_error = 10\<rparr>
      [''s0'', ''s1''] (\<lambda>i a. False)
      (\<lambda>srv g i a. if i = 1 then Inl ''Read timeout''
                     else Inr (GeoDataFrame [''osmid''] [[(''osmid'', i)]]))
      [(), ()]))
     = [(1, ''s0''), (2, ''s1''), (3, ''s0'')] \<and>
   (\<exists>rest. attempts_of (Suc 1) (trace (download_tiles
      \<lparr>max_attempts = 3, sleep_on_timeout = 30, sleep_on_rate_limit = 45, sleep_on_error = 10\<rparr>
      [''s0'', ''s1''] (\<lambda>i a. False)
      (\<lambda>srv g i a. if i = 1 then Inl ''Read timeout''
                     else Inr (GeoDataFrame [''osmid''] [[(''osmid'', i)]]))
      [(), ()]))
     = (1, ''s1'') # rest)"
proof -
  let ?ds = "\<lparr>max_attempts = 3, sleep_on_timeout = 30, sleep_on_rate_limit = 45,
              sleep_on_error = 10\<rparr>"
  let ?sv = "[''s0'', ''s1'']"
  let ?ox = "\<lambda>(srv :: string) (g :: unit) (i :: nat) (a :: nat).
      if i = 1 then (Inl ''Read timeout'' :: string + nat gdf)
      else Inr (GeoDataFrame [''osmid''] [[(''osmid'', i)]])"
  let ?T = "trace (download_tiles ?ds ?sv (\<lambda>i a. False) ?ox [(), ()])"
  have r: "attempts_of 1 ?T
           = map (\<lambda>a. (a, current_server ?sv 1 a)) [1..<nat (max_attempts ?ds + 1)] \<and>
         length (attempts_of 1 ?T) = nat (max_attempts ?ds) \<and>
         (\<forall>j. length (attempts_of j ?T) \<le> nat (max_attempts ?ds)) \<and>
         (\<forall>st. frames (attempts_loop ?ds ?sv (\<lambda>i a. False) ?ox 1 ([(), ()] ! (1 - 1))
                        [1..<nat (max_attempts ?ds + 1)] st) = frames st) \<and>
         (1 < length [(), ()] \<and> \<not> False \<and> 1 \<le> max_attempts ?ds \<longrightarrow>
            (\<exists>rest. attempts_of (Suc 1) ?T = (1, current_server ?sv (Suc 1) 1) # rest))"
    by (rule retry_exhaustion) simp_all
  have e1: "map (\<lambda>a. (a, current_server ?sv 1 a)) [1..<nat (max_attempts ?ds + 1)]
      = [(1, ''s0''), (2, ''s1''), (3, ''s0'')]"
    by code_simp
  have e2: "current_server ?sv (Suc 1) 1 = ''s1''"
    by code_simp
  have c: "1 < length [(), ()] \<and> \<not> False \<and> 1 \<le> max_attempts ?ds"
    by simp
  from r have "attempts_of 1 ?T = [(1, ''s0''), (2, ''s1''), (3, ''s0'')]"
    unfolding e1 by (rule conjunct1)
  moreover from r c have "\<exists>rest. attempts_of (Suc 1) ?T = (1, ''s1'') # rest"
    unfolding e2 by blast
  ultimately show ?thesis by (rule conjI)
qed

lemma four_tiles:
  "download_tiles
      \<lparr>max_attempts = 3, sleep_on_timeout = 30, sleep_on_rate_limit = 45, sleep_on_error = 10\<rparr>
      [''s0'', ''s1''] (\<lambda>i a. False)
      (\<lambda>srv g i a. if i = 1 then Inl ''Read timeout''
                     else Inr (GeoDataFrame [''osmid''] [[(''osmid'', i)]]))
      [g1, g2, g3, g4]
   = \<lparr>frames = [GeoDataFrame [''osmid''] [[(''osmid'', 2)]],
                 GeoDataFrame [''osmid''] [[(''osmid'', 3)]],
                 GeoDataFrame [''osmid''] [[(''osmid'', 4)]]],
       trace = [Attempt 1 1 ''s0'', Sleep 30, Attempt 1 2 ''s1'', Sleep 30, Attempt 1 3 ''s0'',
                Pause, Attempt 2 1 ''s1'', Pause, Attempt 3 1 ''s0'', Pause, Attempt 4 1 ''s1'']\<rparr>"
  by code_simp

text \<open>
  Claim C4 as stated fails on "counts it as a failed item". Four tiles, the first of which
  times out on all three attempts, with a conversion that succeeds: \<open>fetch_layer\<close> merges
  the frames of the other three and returns \<open>True\<close>, and no part of its result records
  the tile that was given up.
\<close>

theorem exhausted_unit_not_counted:
  "fetch_layer (\<lambda>p. p) (\<lambda>c. c) (\<lambda>p q. q) (\<lambda>p. False) (\<lambda>f. True) (\<lambda>f. True)
      \<lparr>max_attempts = 3, sleep_on_timeout = 30, sleep_on_rate_limit = 45, sleep_on_error = 10\<rparr>
      [''s0'', ''s1''] (\<lambda>i a. False)
      (\<lambda>srv g i a. if i = 1 then Inl ''Read timeout''
                     else Inr (GeoDataFrame [''osmid''] [[(''osmid'', i)]]))
      (0, -1, 4, 1) 24784284800
   = Inr ([Attempt 1 1 ''s0'', Sleep 30, Attempt 1 2 ''s1'', Sleep 30, Attempt 1 3 ''s0'',
           Pause, Attempt 2 1 ''s1'', Pause, Attempt 3 1 ''s0'', Pause, Attempt 4 1 ''s1''],
          Some (GeoDataFrame [''osmid'']
                  [[(''osmid'', 2)], [(''osmid'', 3)], [(''osmid'', 4)]]),
          True)"
proof -
  have area: "bbox_area 0 (-1) 4 1 = 99137139200"
    by (simp add: bbox_area_def)
  have up: "[0..<2] = [0, 1]"
    by (simp add: upt_rec)
  have tls: "fetch_layer_tiles (\<lambda>p. p) (\<lambda>c. c) (\<lambda>p q. q) (\<lambda>p. False) (0, -1, 4, 1) 24784284800
      = Inr [grid_cell 0 (-1) 2 1 0 0, grid_cell 0 (-1) 2 1 0 1,
             grid_cell 0 (-1) 2 1 1 0, grid_cell 0 (-1) 2 1 1 1]"
    by (simp add: fetch_layer_tiles_def area grid_size_def up)
  show ?thesis
    unfolding fetch_layer_def tls sum.case four_tiles
    by (simp add: merge_frames_def concat_frames_def drop_duplicates_osmid_def osmid_def)
qed

text \<open>
  Claim C8. When attempt \<open>a\<close> of a tile returns without error and the frame is empty
  (the earlier attempts, if any, having raised), the attempts of that tile in the trace
  of the whole download are exactly the attempts 1 to \<open>a\<close>: there is no attempt after
  the empty one. The retry loop of the tile leaves \<open>frames\<close> as it found it, and the next
  tile gets its first attempt.
\<close>

theorem empty_result_is_terminal:
  assumes "1 \<le> i" and "i \<le> length tls" and "1 \<le> a" and "int a \<le> max_attempts ds"
    and "\<forall>b. 1 \<le> b \<and> b < a \<longrightarrow>
           \<not> stop i b \<and> isl (ox (current_server servers i b) (tls ! (i - 1)) i b)"
    and "\<not> stop i a"
    and "ox (current_server servers i a) (tls ! (i - 1)) i a = Inr gdf" and "gdf_empty gdf"
  shows "attempts_of i (trace (download_tiles ds servers stop ox tls))
           = map (\<lambda>b. (b, current_server servers i b)) [1..<Suc a] \<and>
         (\<forall>st. frames (attempts_loop ds servers stop ox i (tls ! (i - 1))
                        [1..<nat (max_attempts ds + 1)] st) = frames st) \<and>
         (i < length tls \<and> \<not> stop (Suc i) 1 \<longrightarrow>
            (\<exists>rest. attempts_of (Suc i) (trace (download_tiles ds servers stop ox tls))
                      = (1, current_server servers (Suc i) 1) # rest))"
proof -
  define n where "n = nat (max_attempts ds + 1)"
  define g where "g = tls ! (i - 1)"
  have empty: "ox (current_server servers i a) g i a = Inr gdf"
    using assms(7) by (simp add: g_def)
  have an: "a < n" using assms(4) by (simp add: n_def)
  have split: "[1..<n] = [1..<a] @ a # [Suc a..<n]"
  proof -
    have "[1..<n] = [1..<a] @ [a..<n]"
      using assms(3) an by (metis le_add_diff_inverse less_imp_le upt_add_eq_append)
    then show ?thesis using an by (simp add: upt_conv_Cons)
  qed
  have all: "\<forall>b \<in> set [1..<a]. \<not> stop i b \<and> isl (ox (current_server servers i b) g i b)"
    using assms(5) by (simp add: g_def)
  have run: "frames (attempts_loop ds servers stop ox i g [1..<n] st) = frames st \<and>
      attempts_of i (trace (attempts_loop ds servers stop ox i g [1..<n] st))
        = attempts_of i (trace st) @ map (\<lambda>b. (b, current_server servers i b)) [1..<Suc a]" for st
  proof -
    from attempts_loop_raising_prefix [where stop = stop and ox = ox and ds = ds and st = st
        and ?as2.0 = "a # [Suc a..<n]", OF all]
    obtain st' where st': "attempts_loop ds servers stop ox i g [1..<n] st
          = attempts_loop ds servers stop ox i g (a # [Suc a..<n]) st'"
        "frames st' = frames st"
        "attempts_of i (trace st') =
           attempts_of i (trace st) @ map (\<lambda>b. (b, current_server servers i b)) [1..<a]"
      unfolding split by blast
    have "[1..<Suc a] = [1..<a] @ [a]"
      using assms(3) by simp
    then show ?thesis
      unfolding st'(1) attempts_loop_return_step [where stop = stop and ox = ox, OF assms(6) empty]
      using st'(2,3) assms(8)
      by (simp add: attempts_of_append del: upt_Suc)
  qed
  have a: "attempts_of i (trace (download_tiles ds servers stop ox tls))
           = map (\<lambda>b. (b, current_server servers i b)) [1..<Suc a]"
    using run [of "\<lparr>frames = [], trace = []\<rparr>"]
    unfolding download_tiles_unit [OF assms(1,2)] n_def g_def
    by (simp del: upt_Suc)
  have m: "1 \<le> max_attempts ds"
    using assms(3,4) by linarith
  have c: "\<exists>rest. attempts_of (Suc i) (trace (download_tiles ds servers stop ox tls))
                      = (1, current_server servers (Suc i) 1) # rest"
    if "i < length tls" "\<not> stop (Suc i) 1"
    using first_attempt [where stop = stop, OF that(2) m] that(1)
    by (simp add: download_tiles_unit)
  show ?thesis
    using a c run unfolding n_def g_def by blast
qed

theorem empty_result_is_terminal_witness:
  "attempts_of 1 (trace (download_tiles
      \<lparr>max_attempts = 3, sleep_on_timeout = 30, sleep_on_rate_limit = 45, sleep_on_error = 10\<rparr>
      [''s0'', ''s1''] (\<lambda>i a. False)
      (\<lambda>srv g i a. if i = 1 \<and> a = 1 then Inl ''504 timeout''
                     else if i = 1 then Inr (GeoDataFrame [''osmid''] [])
                     else Inr (GeoDataFrame [''osmid''] [[(''osmid'', i)]]))
      [(), ()]))
     = [(1, ''s0''), (2, ''s1'')] \<and>
   (\<exists>rest. attempts_of (Suc 1) (trace (download_tiles
      \<lparr>max_attempts = 3, sleep_on_timeout = 30, sleep_on_rate_limit = 45, sleep_on_error = 10\<rparr>
      [''s0'', ''s1''] (\<lambda>i a. False)
      (\<lambda>srv g i a. if i = 1 \<and> a = 1 then Inl ''504 timeout''
                     else if i = 1 then Inr (GeoDataFrame [''osmid''] [])
                     else Inr (GeoDataFrame [''osmid''] [[(''osmid'', i)]]))
      [(), ()]))
     = (1, ''s1'') # rest)"
proof -
  let ?ds = "\<lparr>max_attempts = 3, sleep_on_timeout = 30, sleep_on_rate_limit = 45,
              sleep_on_error = 10\<rparr>"
  let ?sv = "[''s0'', ''s1'']"
  let ?ox = "\<lambda>(srv :: string) (g :: unit) (i :: nat) (a :: nat).
      if i = 1 \<and> a = 1 then (Inl ''504 timeout'' :: string + nat gdf)
      else if i = 1 then Inr (GeoDataFrame [''osmid''] [])
      else Inr (GeoDataFrame [''osmid''] [[(''osmid'', i)]])"
  let ?T = "trace (download_tiles ?ds ?sv (\<lambda>i a. False) ?ox [(), ()])"
  have r: "attempts_of 1 ?T = map (\<lambda>b. (b, current_server ?sv 1 b)) [1..<Suc 2] \<and>
         (\<forall>st. frames (attempts_loop ?ds ?sv (\<lambda>i a. False) ?ox 1 ([(), ()] ! (1 - 1))
                        [1..<nat (max_attempts ?ds + 1)] st) = frames st) \<and>
         (1 < length [(), ()] \<and> \<not> False \<longrightarrow>
            (\<exists>rest. attempts_of (Suc 1) ?T = (1, current_server ?sv (Suc 1) 1) # rest))"
    by (rule empty_result_is_terminal [where gdf = "GeoDataFrame [''osmid''] []"])
       (auto simp: gdf_empty_def)
  have e1: "map (\<lambda>b. (b, current_server ?sv 1 b)) [1..<Suc 2] = [(1, ''s0''), (2, ''s1'')]"
    by code_simp
  have e2: "current_server ?sv (Suc 1) 1 = ''s1''"
    by code_simp
  have c: "1 < length [(), ()] \<and> \<not> False"
    by simp
  from r have "attempts_of 1 ?T = [(1, ''s0''), (2, ''s1'')]"
    unfolding e1 by (rule conjunct1)
  moreover from r c have "\<exists>rest. attempts_of (Suc 1) ?T = (1, ''s1'') # rest"
    unfolding e2 by blast
  ultimately show ?thesis by (rule conjI)
qed

section \<open>Properties of the endpoint rotation\<close>

lemma mod_shift_neq:
  fixes n :: nat
  assumes "0 < d" "d < n"
  shows "(k + a) mod n \<noteq> (k + (a + d)) mod n"
proof
  assume "(k + a) mod n = (k + (a + d)) mod n"
  then have "(k + a + d) mod n = (k + a) mod n"
    by (simp add: add.assoc)
  then have "n dvd d"
    by (metis add_diff_cancel_left' mod_eq_dvd_iff_nat le_add1)
  with assms show False
    by (auto dest: dvd_imp_le)
qed

text \<open>
  Claim C3, as amended, for the vector download. Every attempt in the trace of
  \<open>fetch_layer\<close>'s download went to the server at position \<open>(i + attempt) mod len(servers)\<close>,
  whatever the requests returned. Two attempts of a tile that are fewer than
  \<open>len(servers)\<close> apart use different positions, hence different servers when the list
  has no repeated entry. The boundary download uses position \<open>i mod len(servers)\<close>.
\<close>

theorem endpoint_rotation:
  "(\<forall>(a, srv) \<in> set (attempts_of i (trace (download_tiles ds servers stop ox tls))).
       srv = servers ! ((i + a) mod length servers)) \<and>
   (0 < d \<and> d < length servers \<longrightarrow>
       (i + a) mod length servers \<noteq> (i + (a + d)) mod length servers) \<and>
   (distinct servers \<and> 0 < d \<and> d < length servers \<longrightarrow>
       current_server servers i a \<noteq> current_server servers i (a + d)) \<and>
   voivodeship_server servers i = servers ! (i mod length servers)"
proof -
  have one: "\<forall>(a, srv) \<in> set (attempts_of i (trace (download_tiles ds servers stop ox tls))).
       srv = servers ! ((i + a) mod length servers)"
    using download_tiles_attempts [of _ _ i ds servers stop ox tls]
    by (auto simp: current_server_def)
  have two: "(i + a) mod length servers \<noteq> (i + (a + d)) mod length servers"
    if "0 < d" "d < length servers"
    using that by (rule mod_shift_neq)
  have three: "current_server servers i a \<noteq> current_server servers i (a + d)"
    if "distinct servers" "0 < d" "d < length servers"
  proof -
    from that have "0 < length servers" by auto
    then have "(i + a) mod length servers < length servers"
      "(i + (a + d)) mod length servers < length servers"
      by simp_all
    with that(1) two [OF that(2,3)] show ?thesis
      by (simp add: current_server_def nth_eq_iff_index_eq)
  qed
  show ?thesis
    using one two three by (simp add: voivodeship_server_def)
qed

theorem endpoint_rotation_witness:
  "attempts_of 1 (trace (download_tiles
      \<lparr>max_attempts = 3, sleep_on_timeout = 30, sleep_on_rate_limit = 45, sleep_on_error = 10\<rparr>
      [''s0'', ''s1'', ''s2''] (\<lambda>i a. False)
      (\<lambda>srv g i a. (Inl ''429'' :: string + nat gdf)) [()]))
     = [(1, ''s2''), (2, ''s0''), (3, ''s1'')] \<and>
   (1 + 1) mod length [''s0'', ''s1'', ''s2''] \<noteq> (1 + (1 + 2)) mod length [''s0'', ''s1'', ''s2''] \<and>
   current_server [''s0'', ''s1'', ''s2''] 1 1 \<noteq> current_server [''s0'', ''s1'', ''s2''] 1 (1 + 2)"
proof -
  let ?ds = "\<lparr>max_attempts = 3, sleep_on_timeout = 30, sleep_on_rate_limit = 45,
              sleep_on_error = 10\<rparr>"
  let ?sv = "[''s0'', ''s1'', ''s2'']"
  let ?ox = "\<lambda>(srv :: string) (g :: unit) (i :: nat) (a :: nat). (Inl ''429'' :: string + nat gdf)"
  let ?T = "trace (download_tiles ?ds ?sv (\<lambda>i a. False) ?ox [()])"
  have r: "(\<forall>(a, srv) \<in> set (attempts_of 1 ?T). srv = ?sv ! ((1 + a) mod length ?sv)) \<and>
     (0 < (2::nat) \<and> 2 < length ?sv \<longrightarrow> (1 + 1) mod length ?sv \<noteq> (1 + (1 + 2)) mod length ?sv) \<and>
     (distinct ?sv \<and> 0 < (2::nat) \<and> 2 < length ?sv \<longrightarrow>
         current_server ?sv 1 1 \<noteq> current_server ?sv 1 (1 + 2)) \<and>
     voivodeship_server ?sv 1 = ?sv ! (1 mod length ?sv)"
    by (rule endpoint_rotation)
  have c: "distinct ?sv \<and> 0 < (2::nat) \<and> 2 < length ?sv"
    by simp
  have run: "attempts_of 1 ?T = [(1, ''s2''), (2, ''s0''), (3, ''s1'')]"
    by code_simp
  from r c have "(1 + 1) mod length ?sv \<noteq> (1 + (1 + 2)) mod length ?sv"
    by blast
  moreover from r c have "current_server ?sv 1 1 \<noteq> current_server ?sv 1 (1 + 2)"
    by blast
  ultimately show ?thesis using run by blast
qed

text \<open>
  Claim C3 as stated fails for the raster download of GeoTiles: the server is drawn at
  random for every request, so the same tile with the same server list is requested from
  different servers in two runs.
\<close>

theorem endpoint_random_choice:
  "fetch_tile_content_osm (\<lambda>template tile. Inr template) (\<lambda>url headers timeout. Inl url)
       0 (Tile 1 2 3) [''a'', ''b''] () () = Inr (Tile 1 2 3, None, Some ''a'') \<and>
   fetch_tile_content_osm (\<lambda>template tile. Inr template) (\<lambda>url headers timeout. Inl url)
       1 (Tile 1 2 3) [''a'', ''b''] () () = Inr (Tile 1 2 3, None, Some ''b'')"
  by (simp add: fetch_tile_content_osm_def random_choice_def)

end
